theory Spec2Isabelle
  imports Main "HOL-Library.Word"
begin

unbundle bit_operations_syntax

section \<open>C strings\<close>

text \<open>
  A C string is modelled by the list of its bytes before the terminating null byte.
  Reading through a \<open>char *\<close> that points at the remaining list \<open>s\<close> yields the head of
  \<open>s\<close>, or the null byte when \<open>s\<close> is exhausted; advancing the pointer drops the head.
\<close>

definition NUL :: char where
  "NUL = CHR 0x00"

definition deref :: "string \<Rightarrow> char" where
  "deref s = (case s of [] \<Rightarrow> NUL | c # _ \<Rightarrow> c)"

text \<open>A list is a well-formed C string when it holds no null byte.\<close>

definition c_string :: "string \<Rightarrow> bool" where
  "c_string s = (NUL \<notin> set s)"

section \<open>bindwrap.c: the environment filter\<close>

definition UNIX_BIND_VAR :: string where
  "UNIX_BIND_VAR = ''FASTCGI4J_UNIX_BIND''"

definition INET_BIND_VAR :: string where
  "INET_BIND_VAR = ''FASTCGI4J_INET_BIND''"

definition UNIX_PEER_VAR :: string where
  "UNIX_PEER_VAR = ''FASTCGI4J_WEB_SERVER_ADDRS''"

text \<open>
  \<open>match_var\<close> (bindwrap.c, lines 62-69): both pointers advance while they read equal bytes,
  neither reads the null byte, and the environment pointer does not read \<open>=\<close>; the result
  is whether the environment pointer stopped on \<open>=\<close>.
\<close>

function match_var :: "string \<Rightarrow> string \<Rightarrow> bool" where
  "match_var vname envp =
     (if deref vname = deref envp \<and> deref vname \<noteq> NUL \<and> deref envp \<noteq> NUL
         \<and> deref envp \<noteq> CHR ''=''
      then match_var (tl vname) (tl envp)
      else deref envp = CHR ''='')"
  by pat_completeness auto
termination
  by (relation "measure (\<lambda>(vname, envp). length vname)")
     (auto simp: deref_def split: list.splits)

declare match_var.simps [simp del]

text \<open>
  The second loop over \<open>environ\<close> in \<open>main\<close> (lines 318-323): an entry is skipped when
  \<open>match_var\<close> accepts it for either variable, and copied to \<open>envp\<close> otherwise.
\<close>

fun copy_environ :: "string list \<Rightarrow> string list" where
  "copy_environ [] = []"
| "copy_environ (e # es) =
     (if match_var UNIX_BIND_VAR e then copy_environ es
      else if match_var INET_BIND_VAR e then copy_environ es
      else e # copy_environ es)"

section \<open>bindwrap.c: platform definitions\<close>

text \<open>
  \<open>bindwrap.c\<close> reads signals through \<open>signalfd\<close> and so is built for Linux. The values
  below are those of the Linux headers it includes: \<open>EXIT_FAILURE\<close> (\<open>stdlib.h\<close>), \<open>EINTR\<close>
  (\<open>errno.h\<close>), the size of \<open>struct signalfd_siginfo\<close> (\<open>sys/signalfd.h\<close>), and the
  wait-status macros of \<open>sys/wait.h\<close>: \<open>WEXITSTATUS(status)\<close> is
  \<open>((status) & 0xff00) >> 8\<close> and a status is composed as \<open>(ret) << 8 | (sig)\<close>.
\<close>

definition EXIT_FAILURE :: int where
  "EXIT_FAILURE = 1"

definition EINTR :: int where
  "EINTR = 4"

definition sizeof_signalfd_siginfo :: int where
  "sizeof_signalfd_siginfo = 128"

definition WEXITSTATUS :: "int \<Rightarrow> int" where
  "WEXITSTATUS status = drop_bit 8 (status AND 0xff00)"

definition W_EXITCODE :: "int \<Rightarrow> int \<Rightarrow> int" where
  "W_EXITCODE ret sig = push_bit 8 ret OR sig"

definition WCOREFLAG :: int where
  "WCOREFLAG = 0x80"

text \<open>
  How a child ends, and the status \<open>waitpid\<close> stores for it: a child that exits with code
  \<open>c\<close> leaves \<open>(c & 0xff) << 8\<close>; a child killed by signal \<open>s\<close> leaves \<open>s\<close>, with the core
  flag set when it dumped core.
\<close>

datatype child_end = Exited int | Killed int bool

fun wait_status :: "child_end \<Rightarrow> int" where
  "wait_status (Exited c) = W_EXITCODE (c AND 0xff) 0"
| "wait_status (Killed s core) = W_EXITCODE 0 (s OR (if core then WCOREFLAG else 0))"

text \<open>
  \<open>getenv\<close> of the C library: the value of the first entry of the environment of the form
  \<open>name=value\<close>.
\<close>

fun getenv :: "string list \<Rightarrow> string \<Rightarrow> string option" where
  "getenv [] name = None"
| "getenv (e # es) name =
     (if take (length name) e = name \<and> deref (drop (length name) e) = CHR ''=''
      then Some (drop (Suc (length name)) e)
      else getenv es name)"

text \<open>
  \<open>strncpy(dest, src, lim)\<close> fills the \<open>lim\<close> bytes of \<open>dest\<close> with the first \<open>lim\<close> bytes of
  the string, padded with null bytes. \<open>c_str_at buf i\<close> is the C string that starts at
  \<open>buf + i\<close>. \<open>strrchr\<close> gives the offset of the last occurrence of a byte in a string, or
  \<open>None\<close> for the null pointer.
\<close>

definition strncpy :: "string \<Rightarrow> nat \<Rightarrow> string" where
  "strncpy src lim = take lim src @ replicate (lim - length src) NUL"

definition c_str_at :: "string \<Rightarrow> nat \<Rightarrow> string" where
  "c_str_at buf i = takeWhile (\<lambda>c. c \<noteq> NUL) (drop i buf)"

fun strrchr :: "string \<Rightarrow> char \<Rightarrow> nat option" where
  "strrchr [] c = None"
| "strrchr (x # xs) c =
     (case strrchr xs c of
        Some i \<Rightarrow> Some (Suc i)
      | None \<Rightarrow> if x = c then Some 0 else None)"

section \<open>bindwrap.c: what the supervisor does and how it ends\<close>

datatype signal = SIGINT | SIGTERM | SIGHUP | SIGCHLD | SIGOTHER nat

datatype family = AF_UNSPEC | PF_UNIX | PF_INET | PF_INET6 | PF_OTHER nat

text \<open>
  The messages written to the error stream, one constructor per format string (the leading
  program name is left out). The message for a failed \<open>listen\<close> (line 217) has the same
  format string as the one for a failed \<open>PF_UNIX\<close> socket (line 103).
\<close>

datatype diag =
    Msg_PF_UNIX_socket int
  | Msg_path_too_long string
  | Msg_bind_un int string
  | Msg_address_too_long string
  | Msg_port_required string
  | Msg_gai int string
  | Msg_unknown_address string
  | Msg_inet_socket string int
  | Msg_bind_in int string
  | Msg_must_specify
  | Msg_dup2 int
  | Msg_cant_block_signals int
  | Msg_cant_create_signal_fd int
  | Msg_cant_fork int
  | Msg_cant_read_signal int
  | Msg_waitpid int
  | Msg_could_not_exec int "string list"

text \<open>
  The system calls the supervisor makes, in order, with the arguments that matter;
  \<open>Waitpid pid rc\<close> also records the value the call returned.
\<close>

datatype action =
    Socket family
  | Bind_un int string
  | Chmod string
  | Getaddrinfo "string option" string
  | Bind_in int
  | Close int
  | Listen int
  | Dup2 int int
  | Sigprocmask
  | Signalfd
  | Fork
  | Read_signalfd
  | Kill int signal
  | Waitpid int int
  | Remove string
  | Execve "string list" "string list"
  | Stderr diag

text \<open>
  How a run ends: \<open>main\<close> returns a value, an assertion fails, the process image is
  replaced by the worker, or the supervisor is still running when the recorded answers of
  the operating system end.
\<close>

datatype outcome =
    Exit int
  | Abort
  | Exec "string list" "string list"
  | Running

type_synonym 'a step = "action list \<times> (outcome + 'a)"

definition and_then :: "'a step \<Rightarrow> ('a \<Rightarrow> 'b step) \<Rightarrow> 'b step" where
  "and_then m f =
     (case m of
        (l, Inl out) \<Rightarrow> (l, Inl out)
      | (l, Inr x) \<Rightarrow> (case f x of (l', r) \<Rightarrow> (l @ l', r)))"

definition and_finally :: "'a step \<Rightarrow> ('a \<Rightarrow> action list \<times> outcome) \<Rightarrow> action list \<times> outcome" where
  "and_finally m f =
     (case m of
        (l, Inl out) \<Rightarrow> (l, out)
      | (l, Inr x) \<Rightarrow> (case f x of (l', out) \<Rightarrow> (l @ l', out)))"

definition after :: "action list \<Rightarrow> action list \<times> 'r \<Rightarrow> action list \<times> 'r" where
  "after l m = (case m of (l', r) \<Rightarrow> (l @ l', r))"

text \<open>
  The answers of the operating system. A system call answers with its return value and
  the error code it leaves in \<open>errno\<close> when it fails. Each resolver candidate carries the
  answers to the calls made for it. \<open>read_r\<close> lists the answers to the successive reads of
  the signal descriptor (return value, error code, \<open>ssi_signo\<close>), \<open>waitpid_r\<close> those to the
  successive \<open>waitpid\<close> calls (return value, error code, status). \<open>execve_r\<close> is \<open>None\<close>
  when the image is replaced and the error code otherwise. \<open>sun_path_size\<close> is
  \<open>sizeof addr.un.sun_path\<close>.
\<close>

record candidate =
  ai_family :: family
  socket_r :: "int \<times> int"
  bind_r :: "int \<times> int"
  close_r :: "int \<times> int"

record os =
  environ :: "string list"
  argv :: "string list"
  sun_path_size :: nat
  socket_un_r :: "int \<times> int"
  bind_un_r :: "int \<times> int"
  getaddrinfo_r :: "string option \<Rightarrow> string \<Rightarrow> int \<times> candidate list"
  errno_start :: int
  listen_r :: "int \<times> int"
  dup2_r :: "int \<times> int"
  sigprocmask_r :: "int \<times> int"
  signalfd_r :: "int \<times> int"
  fork_r :: "int \<times> int"
  read_r :: "(int \<times> int \<times> signal) list"
  waitpid_r :: "(int \<times> int \<times> int) list"
  execve_r :: "int option"

section \<open>bindwrap.c: the blocks of \<open>main\<close>\<close>

text \<open>
  \<open>trunc_strncpy\<close> (lines 74-90): the filled destination, and whether its last byte is not
  the null byte.
\<close>

definition trunc_strncpy :: "string \<Rightarrow> nat \<Rightarrow> string \<times> bool" where
  "trunc_strncpy src lim = (let dest = strncpy src lim in (dest, dest ! (lim - 1) \<noteq> NUL))"

text \<open>
  Lines 98-131, taken when \<open>FASTCGI4J_UNIX_BIND\<close> is set: create the socket, copy the path
  into \<open>sun_path\<close>, bind, and widen the permissions when \<open>FASTCGI4J_WEB_SERVER_ADDRS\<close> is
  set. The result is the socket descriptor.
\<close>

definition bind_unix :: "os \<Rightarrow> string \<Rightarrow> int step" where
  "bind_unix os baddr_un =
     (case socket_un_r os of (sock, ec) \<Rightarrow>
      after [Socket PF_UNIX]
       (if sock < 0 then ([Stderr (Msg_PF_UNIX_socket ec)], Inl (Exit EXIT_FAILURE))
        else
         (case trunc_strncpy baddr_un (sun_path_size os) of (sun_path, trunc) \<Rightarrow>
          if trunc then ([Stderr (Msg_path_too_long baddr_un)], Inl (Exit EXIT_FAILURE))
          else if sun_path ! (sun_path_size os - 1) \<noteq> NUL then ([], Inl Abort)
          else
           (case bind_un_r os of (rc, ec) \<Rightarrow>
            after [Bind_un sock (c_str_at sun_path 0)]
             (if rc < 0 then ([Stderr (Msg_bind_un ec baddr_un)], Inl (Exit EXIT_FAILURE))
              else
               (if getenv (environ os) UNIX_PEER_VAR \<noteq> None
                then [Chmod (c_str_at sun_path 0)] else [],
                Inr sock))))))"

text \<open>
  Lines 134-154: split the network endpoint into node and service. The string is copied
  into a buffer of 256 bytes; the colon found by \<open>strrchr\<close> is overwritten with a null
  byte, so the node is the string at the start of the buffer and the service the string
  after the colon.
\<close>

definition split_endpoint :: "string \<Rightarrow> diag + (string option \<times> string)" where
  "split_endpoint baddr_in =
     (case trunc_strncpy baddr_in 256 of (buf, trunc) \<Rightarrow>
      if trunc then Inl (Msg_address_too_long baddr_in)
      else
       (let col = strrchr (c_str_at buf 0) CHR '':'';
            brac = strrchr (c_str_at buf 0) CHR '']''
        in if col = None \<or> (brac \<noteq> None \<and> the brac > the col) then
             (if brac \<noteq> None \<and> buf ! 0 = CHR ''['' then Inl (Msg_port_required baddr_in)
              else Inr (None, c_str_at buf 0))
           else
             (let buf' = buf[the col := NUL]
              in Inr (Some (c_str_at buf' 0), c_str_at buf' (Suc (the col))))))"

text \<open>
  Lines 175-192: the loop over the resolver's candidates. \<open>try_one\<close> is one run of the
  body on the variables \<open>sock\<close>, \<open>mom\<close>, \<open>fam\<close> and \<open>errno\<close> (the fields of
  \<open>try_state\<close>); its last component tells
  whether the body left by \<open>continue\<close> (otherwise by \<open>break\<close>).
\<close>

record try_state =
  v_sock :: int
  v_mom :: int
  v_fam :: family
  v_errno :: int

definition try_one :: "candidate \<Rightarrow> try_state \<Rightarrow> action list \<times> try_state \<times> bool" where
  "try_one ptr st =
     (let st1 = st\<lparr>v_fam := ai_family ptr\<rparr>;
          st2 = (case socket_r ptr of (rc, ec) \<Rightarrow>
                   st1\<lparr>v_sock := rc, v_errno := (if rc < 0 then ec else v_errno st1)\<rparr>)
      in if v_sock st2 < 0 then ([Socket (ai_family ptr)], st2\<lparr>v_mom := 1\<rparr>, True)
         else
          (case bind_r ptr of (brc, bec) \<Rightarrow>
           if brc < 0 then
             (let st3 = st2\<lparr>v_errno := bec\<rparr>;
                  ec = v_errno st3;
                  st4 = (case close_r ptr of (crc, cec) \<Rightarrow>
                           st3\<lparr>v_errno := (if crc < 0 then cec else v_errno st3)\<rparr>);
                  st5 = st4\<lparr>v_sock := - 1\<rparr>;
                  st6 = st5\<lparr>v_errno := ec\<rparr>
              in ([Socket (ai_family ptr), Bind_in (v_sock st2), Close (v_sock st2)],
                  st6\<lparr>v_mom := 2\<rparr>, True))
           else ([Socket (ai_family ptr), Bind_in (v_sock st2)], st2, False)))"

fun try_candidates :: "candidate list \<Rightarrow> try_state \<Rightarrow> action list \<times> try_state" where
  "try_candidates [] st = ([], st)"
| "try_candidates (ptr # rest) st =
     (case try_one ptr st of (l, st', continue) \<Rightarrow>
        if continue then after l (try_candidates rest st') else (l, st'))"

text \<open>
  Lines 174-207: run the loop from \<open>sock = -1\<close>, \<open>mom = 0\<close>, \<open>fam = 0\<close>, and report when no
  candidate gave a bound socket.
\<close>

definition inet_socket :: "candidate list \<Rightarrow> int \<Rightarrow> string \<Rightarrow> int step" where
  "inet_socket res errno0 baddr_in =
     (case try_candidates res \<lparr>v_sock = - 1, v_mom = 0, v_fam = AF_UNSPEC, v_errno = errno0\<rparr> of
        (l, st) \<Rightarrow>
          if v_sock st < 0 then
            (let ec = v_errno st
             in if v_mom st = 0 then (l, Inl Abort)
                else if v_mom st = 1 then
                  (l @ [Stderr (Msg_inet_socket
                                  (if v_fam st = PF_INET then ''PF_INET'' else ''PF_INET6'') ec)],
                   Inl (Exit EXIT_FAILURE))
                else if v_mom st = 2 then
                  (l @ [Stderr (Msg_bind_in ec baddr_in)], Inl (Exit EXIT_FAILURE))
                else (l, Inl (Exit EXIT_FAILURE)))
          else (l, Inr (v_sock st)))"

text \<open>Lines 132-207, taken when only \<open>FASTCGI4J_INET_BIND\<close> is set.\<close>

definition bind_inet :: "os \<Rightarrow> string \<Rightarrow> int step" where
  "bind_inet os baddr_in =
     (case split_endpoint baddr_in of
        Inl d \<Rightarrow> ([Stderr d], Inl (Exit EXIT_FAILURE))
      | Inr (node, service) \<Rightarrow>
         (case getaddrinfo_r os node service of (hrc, res) \<Rightarrow>
          after [Getaddrinfo node service]
           (if hrc \<noteq> 0 then ([Stderr (Msg_gai hrc baddr_in)], Inl (Exit EXIT_FAILURE))
            else if res = [] then
              ([Stderr (Msg_unknown_address baddr_in)], Inl (Exit EXIT_FAILURE))
            else inet_socket res (errno_start os) baddr_in)))"

text \<open>Lines 214-231: listen, and move the socket to descriptor 0.\<close>

definition listen_install :: "os \<Rightarrow> int \<Rightarrow> int step" where
  "listen_install os sock =
     (case listen_r os of (rc, ec) \<Rightarrow>
      after [Listen sock]
       (if rc < 0 then ([Stderr (Msg_PF_UNIX_socket ec)], Inl (Exit EXIT_FAILURE))
        else if sock \<noteq> 0 then
         (case dup2_r os of (rc, ec) \<Rightarrow>
          after [Dup2 sock 0]
           (if rc < 0 then ([Stderr (Msg_dup2 ec)], Inl (Exit EXIT_FAILURE))
            else ([Close sock], Inr 0)))
        else ([], Inr sock)))"

text \<open>
  Lines 292-304: the inner loop entered on \<open>SIGCHLD\<close>. An interrupted \<open>waitpid\<close> is
  retried; any other failure ends the supervisor; otherwise the assertion \<open>rc == chid\<close> is
  checked, the rendezvous path removed and \<open>WEXITSTATUS(stat)\<close> returned.
\<close>

fun reap_loop :: "int \<Rightarrow> string \<Rightarrow> (int \<times> int \<times> int) list \<Rightarrow> action list \<times> outcome" where
  "reap_loop chid baddr_un [] = ([], Running)"
| "reap_loop chid baddr_un ((rc, ec, stat) # ws) =
     after [Waitpid chid rc]
      (if rc < 0 then
         (if ec = EINTR then reap_loop chid baddr_un ws
          else ([Stderr (Msg_waitpid ec)], Exit EXIT_FAILURE))
       else if rc \<noteq> chid then ([], Abort)
       else ([Remove baddr_un], Exit (WEXITSTATUS stat)))"

text \<open>Lines 271-306: the parent's loop over the signals read from the descriptor.\<close>

fun parent_loop ::
  "int \<Rightarrow> string \<Rightarrow> (int \<times> int \<times> signal) list \<Rightarrow> (int \<times> int \<times> int) list
     \<Rightarrow> action list \<times> outcome" where
  "parent_loop chid baddr_un [] ws = ([], Running)"
| "parent_loop chid baddr_un ((rc, ec, ssi_signo) # rs) ws =
     after [Read_signalfd]
      (if rc < 0 then
         ([Stderr (Msg_cant_read_signal ec), Kill chid SIGTERM], Exit EXIT_FAILURE)
       else if rc \<noteq> sizeof_signalfd_siginfo then ([], Abort)
       else
        (case ssi_signo of
           SIGTERM \<Rightarrow> after [Kill chid ssi_signo] (parent_loop chid baddr_un rs ws)
         | SIGINT \<Rightarrow> parent_loop chid baddr_un rs ws
         | SIGHUP \<Rightarrow> parent_loop chid baddr_un rs ws
         | SIGCHLD \<Rightarrow> reap_loop chid baddr_un ws
         | SIGOTHER n \<Rightarrow> parent_loop chid baddr_un rs ws))"

text \<open>
  Lines 233-308, taken when \<open>FASTCGI4J_UNIX_BIND\<close> is set: block the signals, open the
  signal descriptor and fork. The parent closes its copy of the socket and runs its loop,
  which never falls through; the child (\<open>chid = 0\<close>) goes on to the launcher.
\<close>

definition supervise :: "os \<Rightarrow> string \<Rightarrow> int \<Rightarrow> unit step" where
  "supervise os baddr_un sock =
     (case sigprocmask_r os of (rc, ec) \<Rightarrow>
      after [Sigprocmask]
       (if rc < 0 then ([Stderr (Msg_cant_block_signals ec)], Inl (Exit EXIT_FAILURE))
        else
         (case signalfd_r os of (sigfd, ec) \<Rightarrow>
          after [Signalfd]
           (if sigfd < 0 then
              ([Stderr (Msg_cant_create_signal_fd ec)], Inl (Exit EXIT_FAILURE))
            else
             (case fork_r os of (chid, ec) \<Rightarrow>
              after [Fork]
               (if chid < 0 then ([Stderr (Msg_cant_fork ec)], Inl (Exit EXIT_FAILURE))
                else if chid \<noteq> 0 then
                 (case parent_loop chid baddr_un (read_r os) (waitpid_r os) of
                    (l, out) \<Rightarrow> (Close sock # l, Inl out))
                else ([], Inr ())))))))"

text \<open>Lines 310-337: build the worker's environment and replace the process image.\<close>

definition launch :: "os \<Rightarrow> action list \<times> outcome" where
  "launch os =
     (let envp = copy_environ (environ os)
      in after [Execve (drop 1 (argv os)) envp]
          (case execve_r os of
             Some ec \<Rightarrow>
               ([Stderr (Msg_could_not_exec ec (drop 1 (argv os)))], Exit EXIT_FAILURE)
           | None \<Rightarrow> ([], Exec (drop 1 (argv os)) envp)))"

text \<open>\<open>main\<close> (lines 92-338).\<close>

definition main :: "os \<Rightarrow> action list \<times> outcome" where
  "main os =
     (let baddr_un = getenv (environ os) UNIX_BIND_VAR;
          baddr_in = getenv (environ os) INET_BIND_VAR
      in and_finally
          (and_then
            (and_then
              (case baddr_un of
                 Some path \<Rightarrow> bind_unix os path
               | None \<Rightarrow>
                  (case baddr_in of
                     Some addr \<Rightarrow> bind_inet os addr
                   | None \<Rightarrow> ([Stderr Msg_must_specify], Inl (Exit EXIT_FAILURE))))
              (listen_install os))
            (\<lambda>sock.
               case baddr_un of
                 Some path \<Rightarrow> supervise os path sock
               | None \<Rightarrow> ([], Inr ())))
          (\<lambda>_. launch os))"

section \<open>bindwrap.c: notions used to state the properties\<close>

text \<open>
  A removal of the rendezvous path, and a reap: a \<open>waitpid\<close> on a child (a positive
  process id) that returned that child's id. \<open>removes\<close> and \<open>reaps\<close> count them in a
  sequence of calls.
\<close>

fun is_remove :: "action \<Rightarrow> bool" where
  "is_remove (Remove p) = True"
| "is_remove _ = False"

fun is_reap :: "action \<Rightarrow> bool" where
  "is_reap (Waitpid pid rc) = (0 < pid \<and> rc = pid)"
| "is_reap _ = False"

definition removes :: "action list \<Rightarrow> nat" where
  "removes log = length (filter is_remove log)"

definition reaps :: "action list \<Rightarrow> nat" where
  "reaps log = length (filter is_reap log)"

text \<open>
  \<open>in_order\<close>: at most one removal, at most one reap, and in every prefix of the run no
  more removals than reaps. \<open>quiet\<close>: neither a removal nor a reap.
\<close>

definition in_order :: "action list \<Rightarrow> bool" where
  "in_order log =
     (removes log \<le> 1 \<and> reaps log \<le> 1 \<and> (\<forall>n. removes (take n log) \<le> reaps (take n log)))"

definition quiet :: "action list \<Rightarrow> bool" where
  "quiet log = (removes log = 0 \<and> reaps log = 0)"

text \<open>
  \<open>supervising os path chid\<close>: the run is in filesystem-path mode with a path that fits
  \<open>sun_path\<close>, every call of the set-up succeeds, and \<open>fork\<close> returns the child's process
  id \<open>chid\<close> to the parent.
\<close>

definition supervising :: "os \<Rightarrow> string \<Rightarrow> int \<Rightarrow> bool" where
  "supervising os path chid =
     (getenv (environ os) UNIX_BIND_VAR = Some path \<and> c_string path
      \<and> length path < sun_path_size os
      \<and> 0 \<le> fst (socket_un_r os) \<and> 0 \<le> fst (bind_un_r os) \<and> 0 \<le> fst (listen_r os)
      \<and> (fst (socket_un_r os) = 0 \<or> 0 \<le> fst (dup2_r os))
      \<and> 0 \<le> fst (sigprocmask_r os) \<and> 0 \<le> fst (signalfd_r os)
      \<and> fst (fork_r os) = chid \<and> 0 < chid)"

text \<open>
  A run in filesystem-path mode used in the examples: the path is \<open>/tmp/test.sock\<close>, every
  call of the set-up succeeds, the socket is descriptor 3, and \<open>fork\<close> returns \<open>chid\<close>;
  the reads of the signal descriptor and the \<open>waitpid\<close> calls are answered from the two
  lists.
\<close>

definition example_os ::
  "string list \<Rightarrow> int \<Rightarrow> (int \<times> int \<times> signal) list \<Rightarrow> (int \<times> int \<times> int) list \<Rightarrow> os" where
  "example_os env chid rs ws =
     \<lparr>environ = env,
      argv = [''bindwrap'', ''/usr/bin/worker'', ''-x''],
      sun_path_size = 108,
      socket_un_r = (3, 0),
      bind_un_r = (0, 0),
      getaddrinfo_r = (\<lambda>node service. (0, [])),
      errno_start = 0,
      listen_r = (0, 0),
      dup2_r = (0, 0),
      sigprocmask_r = (0, 0),
      signalfd_r = (4, 0),
      fork_r = (chid, 0),
      read_r = rs,
      waitpid_r = ws,
      execve_r = None\<rparr>"

definition unix_env :: "string list" where
  "unix_env = [''PATH=/bin'', ''FASTCGI4J_UNIX_BIND=/tmp/test.sock'']"

text \<open>
  A path of 109 bytes, one more than \<open>sun_path\<close> holds in the example runs.
\<close>

definition long_path :: string where
  "long_path = replicate 109 CHR ''a''"

text \<open>
  For the loop over the resolver's candidates: a candidate fails when its socket cannot
  be created or cannot be bound; \<open>attempt\<close> lists the calls made for one candidate
  (socket creation, then bind, then \<open>close\<close> when the bind failed); \<open>report\<close> is the
  message for a run whose last candidate is the given one.
\<close>

definition fails :: "candidate \<Rightarrow> bool" where
  "fails c = (fst (socket_r c) < 0 \<or> fst (bind_r c) < 0)"

definition attempt :: "candidate \<Rightarrow> action list" where
  "attempt c =
     (if fst (socket_r c) < 0 then [Socket (ai_family c)]
      else if fst (bind_r c) < 0 then
        [Socket (ai_family c), Bind_in (fst (socket_r c)), Close (fst (socket_r c))]
      else [Socket (ai_family c), Bind_in (fst (socket_r c))])"

definition report :: "string \<Rightarrow> candidate \<Rightarrow> diag" where
  "report baddr_in c =
     (if fst (socket_r c) < 0 then
        Msg_inet_socket (if ai_family c = PF_INET then ''PF_INET'' else ''PF_INET6'')
          (snd (socket_r c))
      else Msg_bind_in (snd (bind_r c)) baddr_in)"

text \<open>
  Three candidates for the examples: one whose bind fails with error 98 and whose
  \<open>close\<close> then fails with error 9, one whose socket creation fails with error 97, and
  one that succeeds.
\<close>

definition cand_bind_fails :: candidate where
  "cand_bind_fails =
     \<lparr>ai_family = PF_INET, socket_r = (5, 0), bind_r = (- 1, 98), close_r = (- 1, 9)\<rparr>"

definition cand_socket_fails :: candidate where
  "cand_socket_fails =
     \<lparr>ai_family = PF_INET6, socket_r = (- 1, 97), bind_r = (0, 0), close_r = (0, 0)\<rparr>"

definition cand_ok :: candidate where
  "cand_ok = \<lparr>ai_family = PF_INET, socket_r = (5, 0), bind_r = (0, 0), close_r = (0, 0)\<rparr>"

text \<open>The candidate whose bind fails, with the other address family.\<close>

definition cand_bind_fails6 :: candidate where
  "cand_bind_fails6 =
     \<lparr>ai_family = PF_INET6, socket_r = (5, 0), bind_r = (- 1, 98), close_r = (- 1, 9)\<rparr>"

text \<open>
  A run in network mode used in the examples: only \<open>FASTCGI4J_INET_BIND\<close> is set, to
  the given string; the resolver succeeds with the given candidates, and every later call
  succeeds.
\<close>

definition inet_os :: "string \<Rightarrow> candidate list \<Rightarrow> os" where
  "inet_os addr res =
     (example_os [''PATH=/bin'', ''FASTCGI4J_INET_BIND='' @ addr] 0 [] [])
       \<lparr>getaddrinfo_r := (\<lambda>node service. (0, res))\<rparr>"

text \<open>
  \<open>unsetenv env name\<close>: the environment without the entries that define the variable
  \<open>name\<close>, those \<open>getenv\<close> would answer with.
\<close>

definition unsetenv :: "string list \<Rightarrow> string \<Rightarrow> string list" where
  "unsetenv env name =
     filter (\<lambda>e. \<not> (take (length name) e = name \<and> deref (drop (length name) e) = CHR ''='')) env"

text \<open>An environment that defines both bind-target variables.\<close>

definition both_env :: "string list" where
  "both_env = [''FASTCGI4J_INET_BIND=localhost:8080'', ''PATH=/bin'',
               ''FASTCGI4J_UNIX_BIND=/tmp/test.sock'']"

section \<open>native.c: single-byte socket operations of the interop bridge\<close>

text \<open>
  The state of the calling Java thread that the bridge can change: the pending exception.
  \<open>throwErrno\<close> (native.c, lines 56-64) raises an \<open>IOException\<close> built from the error
  code; raising does not leave the C function.
\<close>

record jni_env =
  pending :: "int option"

definition throwErrno :: "jni_env \<Rightarrow> int \<Rightarrow> jni_env" where
  "throwErrno env ec = env\<lparr>pending := Some ec\<rparr>"

text \<open>
  \<open>(unsigned) b\<close> for \<open>char b\<close>, returned as \<open>jint\<close>. Whether plain \<open>char\<close> is signed is
  fixed by the platform ABI (signed on x86 and x86-64, unsigned on ARM and PowerPC Linux),
  so it is a parameter. A signed \<open>char\<close> is sign-extended to 32 bits, an unsigned one
  zero-extended; the 32-bit pattern is then read as the signed \<open>jint\<close>.
\<close>

definition char_to_unsigned :: "bool \<Rightarrow> 8 word \<Rightarrow> 32 word" where
  "char_to_unsigned char_signed b = (if char_signed then scast b else ucast b)"

text \<open>
  \<open>readSocket(I)I\<close> (native.c, lines 345-357). \<open>recv\<close> answers with its return value,
  the error code it leaves in \<open>errno\<close>, and the byte it stored in \<open>b\<close>.
  The result is the state of the thread and the returned \<open>jint\<close>.
\<close>

definition readSocket_I :: "bool \<Rightarrow> jni_env \<Rightarrow> int \<times> int \<times> 8 word \<Rightarrow> jni_env \<times> int" where
  "readSocket_I char_signed env recv =
     (case recv of (rc, ec, b) \<Rightarrow>
        if rc < 0 then (throwErrno env ec, - 1)
        else if rc = 0 then (env, - 1)
        else (env, sint (char_to_unsigned char_signed b)))"




section \<open>Properties of the environment filter\<close>

lemma match_var_Nil_left [simp]: "match_var [] e = (deref e = CHR ''='')"
  by (subst match_var.simps) (simp add: deref_def)

lemma match_var_Nil_right [simp]: "match_var v [] = False"
  by (subst match_var.simps) (simp add: deref_def NUL_def)

lemma match_var_Cons [simp]:
  "match_var (v # vs) (e # es) =
     (if v = e \<and> v \<noteq> NUL \<and> e \<noteq> CHR ''='' then match_var vs es else e = CHR ''='')"
  by (subst match_var.simps) (auto simp: deref_def)

lemma match_var_prefix:
  "c_string name \<Longrightarrow> CHR ''='' \<notin> set name
     \<Longrightarrow> match_var name (name @ rest) = (deref rest = CHR ''='')"
proof (induction name)
  case Nil
  show ?case by simp
next
  case (Cons v vs)
  then show ?case by (auto simp: c_string_def)
qed

lemma match_var_INET:
  assumes "take (length INET_BIND_VAR) e = INET_BIND_VAR"
    "deref (drop (length INET_BIND_VAR) e) = CHR ''=''"
  shows "match_var INET_BIND_VAR e"
proof -
  have e: "e = INET_BIND_VAR @ drop (length INET_BIND_VAR) e"
    using assms(1) by (metis append_take_drop_id)
  have "match_var INET_BIND_VAR (INET_BIND_VAR @ drop (length INET_BIND_VAR) e)
          = (deref (drop (length INET_BIND_VAR) e) = CHR ''='')"
    by (rule match_var_prefix) (simp_all add: INET_BIND_VAR_def c_string_def NUL_def)
  then show ?thesis using assms(2) e by simp
qed

lemma match_var_UNIX:
  assumes "take (length UNIX_BIND_VAR) e = UNIX_BIND_VAR"
    "deref (drop (length UNIX_BIND_VAR) e) = CHR ''=''"
  shows "match_var UNIX_BIND_VAR e"
proof -
  have e: "e = UNIX_BIND_VAR @ drop (length UNIX_BIND_VAR) e"
    using assms(1) by (metis append_take_drop_id)
  have "match_var UNIX_BIND_VAR (UNIX_BIND_VAR @ drop (length UNIX_BIND_VAR) e)
          = (deref (drop (length UNIX_BIND_VAR) e) = CHR ''='')"
    by (rule match_var_prefix) (simp_all add: UNIX_BIND_VAR_def c_string_def NUL_def)
  then show ?thesis using assms(2) e by simp
qed

lemma copy_environ_filter:
  "copy_environ env
     = filter (\<lambda>e. \<not> match_var UNIX_BIND_VAR e \<and> \<not> match_var INET_BIND_VAR e) env"
  by (induction env) simp_all

text \<open>
  The part of the filter that holds for every environment: what is passed on is passed on
  unchanged and in order, and no entry that defines one of the two bind-target variables
  is passed on.
\<close>

lemma copy_environ_drops_bind_targets:
  assumes "e \<in> set (copy_environ env)"
  shows "e \<in> set env"
    and "\<not> (take (length UNIX_BIND_VAR) e = UNIX_BIND_VAR
            \<and> deref (drop (length UNIX_BIND_VAR) e) = CHR ''='')"
    and "\<not> (take (length INET_BIND_VAR) e = INET_BIND_VAR
            \<and> deref (drop (length INET_BIND_VAR) e) = CHR ''='')"
  using assms match_var_UNIX [of e] match_var_INET [of e]
  by (auto simp: copy_environ_filter)

text \<open>
  C4, evaluated on the code. The inherited environment
  \<open>F=1, FASTCGI4J=x, PATH=/bin, FASTCGI4J_UNIX_BIND=/tmp/s\<close> defines two variables,
  \<open>F\<close> and \<open>FASTCGI4J\<close>, that are not bind-target variables. \<open>match_var\<close> stops at their
  \<open>=\<close> without checking that the variable name has been consumed, so both are dropped
  from the worker's environment together with the bind-target variable; only
  \<open>PATH=/bin\<close> is passed on.
\<close>

theorem C4_copy_environ_drops_prefix_names:
  "copy_environ [''F=1'', ''FASTCGI4J=x'', ''PATH=/bin'', ''FASTCGI4J_UNIX_BIND=/tmp/s'']
     = [''PATH=/bin'']
   \<and> match_var UNIX_BIND_VAR ''F=1''
   \<and> match_var INET_BIND_VAR ''FASTCGI4J=x''"
  by (simp add: UNIX_BIND_VAR_def INET_BIND_VAR_def NUL_def deref_def)

section \<open>Strings and wait statuses\<close>

lemma strncpy_short:
  "length s < lim \<Longrightarrow> strncpy s lim = s @ replicate (lim - length s) NUL"
  by (simp add: strncpy_def)

lemma trunc_strncpy_short:
  assumes "length s < lim"
  shows "trunc_strncpy s lim = (s @ replicate (lim - length s) NUL, False)"
proof -
  have "\<not> lim - 1 < length s" and "lim - 1 - length s < lim - length s"
    using assms by arith+
  then have "(s @ replicate (lim - length s) NUL) ! (lim - 1) = NUL"
    by (simp only: nth_append if_False nth_replicate)
  then show ?thesis using assms
    by (simp only: trunc_strncpy_def strncpy_short Let_def) simp
qed

lemma trunc_strncpy_long:
  assumes "c_string s" "0 < lim" "lim \<le> length s"
  shows "trunc_strncpy s lim = (take lim s, True)"
proof -
  have 1: "strncpy s lim = take lim s" using assms by (simp add: strncpy_def)
  have "lim - 1 < length s" using assms by arith
  then have "s ! (lim - 1) \<in> set s" by (rule nth_mem)
  then have "s ! (lim - 1) \<noteq> NUL" using assms(1) unfolding c_string_def by metis
  moreover have "take lim s ! (lim - 1) = s ! (lim - 1)" using assms by simp
  ultimately have "take lim s ! (lim - 1) \<noteq> NUL" by simp
  then show ?thesis by (simp only: trunc_strncpy_def 1 Let_def) simp
qed

lemma takeWhile_c_string:
  assumes "c_string s"
  shows "takeWhile (\<lambda>c. c \<noteq> NUL) (s @ NUL # t) = s"
    and "takeWhile (\<lambda>c. c \<noteq> NUL) s = s"
proof -
  have n: "\<And>x. x \<in> set s \<Longrightarrow> x \<noteq> NUL" using assms unfolding c_string_def by metis
  show "takeWhile (\<lambda>c. c \<noteq> NUL) (s @ NUL # t) = s"
    by (simp add: takeWhile_append2 [OF n])
  show "takeWhile (\<lambda>c. c \<noteq> NUL) s = s"
    using n by (simp add: takeWhile_eq_all_conv)
qed

lemma c_str_at_padded:
  assumes "c_string s"
  shows "c_str_at (s @ replicate k NUL) 0 = s"
  using takeWhile_c_string [OF assms]
  by (cases k) (simp_all add: c_str_at_def)

lemma and_ff00_push: "push_bit 8 (c::int) AND 0xff00 = push_bit 8 (c AND 0xff)"
proof -
  have "(0xff00::int) = push_bit 8 0xff" by simp
  then show ?thesis by (simp only: push_bit_and)
qed

lemma and_ff_self: "0 \<le> c \<Longrightarrow> c \<le> 255 \<Longrightarrow> (c::int) AND 0xff = c"
proof -
  assume a: "0 \<le> c" "c \<le> 255"
  have "(0xff::int) = mask 8" by (simp add: mask_eq_exp_minus_1)
  then have "c AND 0xff = take_bit 8 c" by (simp only: take_bit_eq_mask)
  also have "\<dots> = c" using a by (simp add: take_bit_int_eq_self)
  finally show ?thesis .
qed

lemma WEXITSTATUS_Exited: "0 \<le> c \<Longrightarrow> c \<le> 255 \<Longrightarrow> WEXITSTATUS (wait_status (Exited c)) = c"
  by (simp add: WEXITSTATUS_def W_EXITCODE_def and_ff00_push and_ff_self drop_bit_push_bit)

lemma low_byte_and_ff00: "0 \<le> x \<Longrightarrow> x \<le> 255 \<Longrightarrow> (x::int) AND 0xff00 = 0"
proof -
  assume a: "0 \<le> x" "x \<le> 255"
  have x: "x = take_bit 8 x" using a by (simp add: take_bit_int_eq_self)
  have m: "(0xff00::int) = push_bit 8 0xff" by simp
  have "take_bit 8 x AND push_bit 8 y = 0" for y :: int
    by (rule bit_eqI) (auto simp: bit_simps)
  with x m show ?thesis by metis
qed

lemma or_flag_bound:
  "0 \<le> s \<Longrightarrow> s \<le> 127
     \<Longrightarrow> 0 \<le> (s::int) OR (if core then WCOREFLAG else 0)
         \<and> s OR (if core then WCOREFLAG else 0) \<le> 255"
proof -
  assume a: "0 \<le> s" "s \<le> 127"
  have "s OR 0x80 < 2 ^ 8" using a by (intro OR_upper) auto
  then show ?thesis using a by (auto simp: WCOREFLAG_def)
qed

lemma WEXITSTATUS_Killed: "0 \<le> s \<Longrightarrow> s \<le> 127 \<Longrightarrow> WEXITSTATUS (wait_status (Killed s core)) = 0"
  using or_flag_bound [of s core]
  by (simp add: WEXITSTATUS_def W_EXITCODE_def low_byte_and_ff00)

section \<open>Properties of the supervisor's wait loop\<close>

lemma after_Pair [simp]: "after l (l', r) = (l @ l', r)"
  by (simp add: after_def)

lemma fst_after [simp]: "fst (after l m) = l @ fst m"
  by (cases m) simp

lemma snd_after [simp]: "snd (after l m) = snd m"
  by (cases m) simp

lemma removes_simps [simp]:
  "removes [] = 0"
  "removes (a # l) = (if is_remove a then Suc (removes l) else removes l)"
  "removes (l @ l') = removes l + removes l'"
  by (simp_all add: removes_def)

lemma reaps_simps [simp]:
  "reaps [] = 0"
  "reaps (a # l) = (if is_reap a then Suc (reaps l) else reaps l)"
  "reaps (l @ l') = reaps l + reaps l'"
  by (simp_all add: reaps_def)

lemma quiet_simps [simp]:
  "quiet []"
  "quiet (a # l) = (\<not> is_remove a \<and> \<not> is_reap a \<and> quiet l)"
  "quiet (l @ l') = (quiet l \<and> quiet l')"
  by (auto simp: quiet_def)

lemma quiet_take: "quiet l \<Longrightarrow> quiet (take n l)"
proof -
  assume q: "quiet l"
  have "removes (take n l) + removes (drop n l) = removes l"
    by (metis append_take_drop_id removes_simps(3))
  moreover have "reaps (take n l) + reaps (drop n l) = reaps l"
    by (metis append_take_drop_id reaps_simps(3))
  ultimately show ?thesis using q by (simp add: quiet_def)
qed

lemma quiet_in_order: "quiet l \<Longrightarrow> in_order l"
  using quiet_take by (auto simp: in_order_def quiet_def)

lemma quiet_append_in_order: "quiet l \<Longrightarrow> in_order l' \<Longrightarrow> in_order (l @ l')"
  using quiet_take [of l] by (auto simp: in_order_def quiet_def)

lemma quiet_Cons_in_order:
  "\<not> is_remove a \<Longrightarrow> \<not> is_reap a \<Longrightarrow> in_order l \<Longrightarrow> in_order (a # l)"
  using quiet_append_in_order [of "[a]" l] by simp

lemma reap_remove_in_order: "0 < chid \<Longrightarrow> in_order [Waitpid chid chid, Remove p]"
proof -
  assume c: "0 < chid"
  have "removes (take n [Waitpid chid chid, Remove p])
          \<le> reaps (take n [Waitpid chid chid, Remove p])" for n
    using c by (cases n) (auto simp: take_Cons')
  then show ?thesis using c by (simp add: in_order_def)
qed

lemma reap_loop_in_order: "0 < chid \<Longrightarrow> in_order (fst (reap_loop chid p ws))"
proof (induction ws)
  case Nil
  show ?case by (simp add: quiet_in_order)
next
  case (Cons w ws)
  obtain rc ec stat where w: "w = (rc, ec, stat)" by (cases w)
  show ?case
  proof (cases "rc < 0")
    case True
    then show ?thesis using Cons w
      by (auto simp: quiet_in_order intro!: quiet_Cons_in_order)
  next
    case False
    then show ?thesis using Cons(2) w reap_remove_in_order [of chid p]
      by (auto simp: quiet_in_order)
  qed
qed

lemma parent_loop_in_order: "0 < chid \<Longrightarrow> in_order (fst (parent_loop chid p rs ws))"
proof (induction rs)
  case Nil
  show ?case by (simp add: quiet_in_order)
next
  case (Cons r rs)
  obtain rc ec signo where r: "r = (rc, ec, signo)" by (cases r)
  show ?case using Cons r reap_loop_in_order [of chid p ws]
    by (cases signo) (auto simp: quiet_in_order intro!: quiet_Cons_in_order)
qed

lemma try_one_quiet: "quiet (fst (try_one ptr st))"
  by (simp add: try_one_def Let_def split: prod.splits)

lemma try_candidates_quiet: "quiet (fst (try_candidates res st))"
proof (induction res arbitrary: st)
  case Nil
  show ?case by simp
next
  case (Cons ptr rest)
  obtain l st' c where t: "try_one ptr st = (l, st', c)" by (cases "try_one ptr st")
  have "quiet l" using try_one_quiet [of ptr st] t by simp
  then show ?case using Cons [of st'] t by simp
qed

lemma inet_socket_quiet: "quiet (fst (inet_socket res e a))"
proof -
  obtain l st where t:
    "try_candidates res \<lparr>v_sock = - 1, v_mom = 0, v_fam = AF_UNSPEC, v_errno = e\<rparr> = (l, st)"
    by (cases "try_candidates res \<lparr>v_sock = - 1, v_mom = 0, v_fam = AF_UNSPEC, v_errno = e\<rparr>")
  have "quiet l"
    using try_candidates_quiet
      [of res "\<lparr>v_sock = - 1, v_mom = 0, v_fam = AF_UNSPEC, v_errno = e\<rparr>"] t
    by simp
  then show ?thesis by (simp add: inet_socket_def Let_def t)
qed

lemma bind_inet_quiet: "quiet (fst (bind_inet os a))"
  using inet_socket_quiet
  by (simp add: bind_inet_def split: sum.splits prod.splits)

lemma bind_unix_quiet: "quiet (fst (bind_unix os p))"
  by (simp add: bind_unix_def split: prod.splits)

lemma listen_install_quiet: "quiet (fst (listen_install os s))"
  by (simp add: listen_install_def split: prod.splits)

lemma launch_quiet: "quiet (fst (launch os))"
  by (simp add: launch_def Let_def split: option.splits)

lemma supervise_in_order: "in_order (fst (supervise os p s))"
proof -
  have "parent_loop chid p (read_r os) (waitpid_r os) = (l, out) \<Longrightarrow> 0 < chid
      \<Longrightarrow> in_order (Sigprocmask # Signalfd # Fork # Close s # l)" for chid l out
    using parent_loop_in_order [of chid p "read_r os" "waitpid_r os"]
    by (intro quiet_Cons_in_order) simp_all
  then show ?thesis
    by (auto simp: supervise_def quiet_in_order split: prod.splits)
qed

lemma supervise_Inr_quiet: "snd (supervise os p s) = Inr x \<Longrightarrow> quiet (fst (supervise os p s))"
  by (auto simp: supervise_def split: prod.splits if_splits)

lemma and_then_quiet:
  "quiet (fst m) \<Longrightarrow> (\<And>x. quiet (fst (f x))) \<Longrightarrow> quiet (fst (and_then m f))"
  by (auto simp: and_then_def split: prod.splits sum.splits) (metis fst_conv)

lemma and_then_in_order:
  "quiet (fst m) \<Longrightarrow> (\<And>x. in_order (fst (f x))) \<Longrightarrow> in_order (fst (and_then m f))"
  by (auto simp: and_then_def quiet_in_order split: prod.splits sum.splits)
     (metis fst_conv quiet_append_in_order)

lemma and_then_Inr_quiet:
  "quiet (fst m) \<Longrightarrow> (\<And>x y. snd (f x) = Inr y \<Longrightarrow> quiet (fst (f x)))
     \<Longrightarrow> snd (and_then m f) = Inr y \<Longrightarrow> quiet (fst (and_then m f))"
  by (auto simp: and_then_def split: prod.splits sum.splits) (metis fst_conv snd_conv)

lemma and_finally_in_order:
  "in_order (fst m) \<Longrightarrow> (\<And>x. snd m = Inr x \<Longrightarrow> quiet (fst m)) \<Longrightarrow> (\<And>x. quiet (fst (f x)))
     \<Longrightarrow> in_order (fst (and_finally m f))"
  by (auto simp: and_finally_def split: prod.splits sum.splits)
     (metis fst_conv quiet_in_order quiet_simps(3))

lemma main_in_order: "in_order (fst (main os))"
proof -
  define A where "A = (case getenv (environ os) UNIX_BIND_VAR of
                 Some path \<Rightarrow> bind_unix os path
               | None \<Rightarrow>
                  (case getenv (environ os) INET_BIND_VAR of
                     Some addr \<Rightarrow> bind_inet os addr
                   | None \<Rightarrow> ([Stderr Msg_must_specify], Inl (Exit EXIT_FAILURE))))"
  define S where "S = (\<lambda>sock.
               case getenv (environ os) UNIX_BIND_VAR of
                 Some path \<Rightarrow> supervise os path sock
               | None \<Rightarrow> ([], Inr ()))"
  have m: "main os = and_finally (and_then (and_then A (listen_install os)) S) (\<lambda>_. launch os)"
    by (simp add: main_def Let_def A_def S_def)
  have qA: "quiet (fst A)"
    by (simp add: A_def bind_unix_quiet bind_inet_quiet split: option.splits)
  have qAL: "quiet (fst (and_then A (listen_install os)))"
    using qA listen_install_quiet by (rule and_then_quiet)
  have oS: "in_order (fst (S x))" for x
    by (simp add: S_def supervise_in_order quiet_in_order split: option.splits)
  have qS: "snd (S x) = Inr y \<Longrightarrow> quiet (fst (S x))" for x y
    by (auto simp: S_def supervise_Inr_quiet split: option.splits)
  have 1: "in_order (fst (and_then (and_then A (listen_install os)) S))"
    using qAL oS by (rule and_then_in_order)
  have 2: "snd (and_then (and_then A (listen_install os)) S) = Inr y
     \<Longrightarrow> quiet (fst (and_then (and_then A (listen_install os)) S))" for y
    using qAL qS by (rule and_then_Inr_quiet)
  show ?thesis
    unfolding m using 1 2 launch_quiet by (rule and_finally_in_order)
qed

lemma bind_unix_ok:
  assumes "c_string path" "length path < sun_path_size os" "0 \<le> fst (socket_un_r os)"
    "0 \<le> fst (bind_un_r os)"
  shows "snd (bind_unix os path) = Inr (fst (socket_un_r os))"
  using assms
  by (auto simp: bind_unix_def trunc_strncpy_short nth_append split: prod.splits)

lemma main_supervising:
  assumes "supervising os path chid"
  shows "snd (main os) = snd (parent_loop chid path (read_r os) (waitpid_r os))"
proof -
  obtain l where b: "bind_unix os path = (l, Inr (fst (socket_un_r os)))"
    using assms bind_unix_ok [of path os] by (cases "bind_unix os path") (auto simp: supervising_def)
  obtain l' where li: "listen_install os (fst (socket_un_r os)) = (l', Inr 0)"
    using assms by (cases "listen_install os (fst (socket_un_r os))")
      (auto simp: supervising_def listen_install_def split: prod.splits if_splits)
  obtain l'' out where pl: "parent_loop chid path (read_r os) (waitpid_r os) = (l'', out)"
    by (cases "parent_loop chid path (read_r os) (waitpid_r os)")
  have s: "snd (supervise os path 0) = Inl out"
    using assms pl by (auto simp: supervising_def supervise_def split: prod.splits)
  obtain l3 where s': "supervise os path 0 = (l3, Inl out)" using s by (cases "supervise os path 0") auto
  have g: "getenv (environ os) UNIX_BIND_VAR = Some path" using assms by (simp add: supervising_def)
  show ?thesis
    by (simp add: main_def Let_def g b li s' pl and_then_def and_finally_def)
qed

lemma reap_loop_intr:
  "\<forall>w\<in>set intr. fst w < 0 \<and> fst (snd w) = EINTR
     \<Longrightarrow> snd (reap_loop chid p (intr @ ws)) = snd (reap_loop chid p ws)"
  by (induction intr) auto

lemma parent_loop_pre:
  "\<forall>r\<in>set pre. fst r = sizeof_signalfd_siginfo \<and> snd (snd r) \<noteq> SIGCHLD
     \<Longrightarrow> snd (parent_loop chid p (pre @ rs) ws) = snd (parent_loop chid p rs ws)"
proof (induction pre)
  case Nil
  show ?case by simp
next
  case (Cons r pre)
  obtain rc ec signo where r: "r = (rc, ec, signo)" by (cases r)
  show ?case using Cons r
    by (cases signo) (auto simp: sizeof_signalfd_siginfo_def)
qed

lemma parent_loop_reaps:
  assumes "0 < chid"
    and "\<forall>r\<in>set pre. fst r = sizeof_signalfd_siginfo \<and> snd (snd r) \<noteq> SIGCHLD"
    and "\<forall>w\<in>set intr. fst w < 0 \<and> fst (snd w) = EINTR"
  shows "snd (parent_loop chid p (pre @ (sizeof_signalfd_siginfo, e, SIGCHLD) # rs)
               (intr @ (chid, e', stat) # ws)) = Exit (WEXITSTATUS stat)"
proof -
  have "snd (reap_loop chid p (intr @ (chid, e', stat) # ws)) = Exit (WEXITSTATUS stat)"
    using assms(1) by (simp add: reap_loop_intr [OF assms(3)])
  then show ?thesis
    by (simp add: parent_loop_pre [OF assms(2)] sizeof_signalfd_siginfo_def)
qed


lemmas eval_defs = main_def example_os_def unix_env_def UNIX_BIND_VAR_def INET_BIND_VAR_def
  UNIX_PEER_VAR_def deref_def bind_unix_def trunc_strncpy_def strncpy_def c_str_at_def NUL_def
  and_then_def and_finally_def listen_install_def supervise_def sizeof_signalfd_siginfo_def
  EINTR_def WEXITSTATUS_def W_EXITCODE_def WCOREFLAG_def launch_def EXIT_FAILURE_def

text \<open>
  C1, as the code has it. In filesystem-path mode, when the set-up has succeeded, the
  signals read before the child-terminated one are others, and the \<open>waitpid\<close> that follows
  returns the child's process id after any number of interrupted attempts, \<open>main\<close> returns
  \<open>WEXITSTATUS\<close> of the status: the child's exit code \<open>c\<close> when the child exited with a
  code from 0 to 255, and 0 when the child was killed by a signal.
\<close>

theorem C1_supervisor_exit_status:
  assumes "supervising os path chid"
    and "read_r os = pre @ (sizeof_signalfd_siginfo, e, SIGCHLD) # rs"
    and "\<forall>r\<in>set pre. fst r = sizeof_signalfd_siginfo \<and> snd (snd r) \<noteq> SIGCHLD"
    and "waitpid_r os = intr @ (chid, e', stat) # ws"
    and "\<forall>w\<in>set intr. fst w < 0 \<and> fst (snd w) = EINTR"
  shows "snd (main os) = Exit (WEXITSTATUS stat)
     \<and> (0 \<le> c \<and> c \<le> 255 \<and> stat = wait_status (Exited c) \<longrightarrow> snd (main os) = Exit c)
     \<and> (1 \<le> s \<and> s \<le> 127 \<and> stat = wait_status (Killed s core) \<longrightarrow> snd (main os) = Exit 0)"
proof -
  have chid: "0 < chid" using assms(1) by (simp add: supervising_def)
  have "snd (main os) = snd (parent_loop chid path (read_r os) (waitpid_r os))"
    using assms(1) by (rule main_supervising)
  also have "\<dots> = Exit (WEXITSTATUS stat)"
    unfolding assms(2) assms(4) using chid assms(3) assms(5) by (rule parent_loop_reaps)
  finally have m: "snd (main os) = Exit (WEXITSTATUS stat)" .
  show ?thesis
    using m WEXITSTATUS_Exited [of c] WEXITSTATUS_Killed [of s core] by auto
qed

text \<open>The statement at a child that exits with 7 and at a child killed by signal 9.\<close>

theorem C1_supervisor_exit_status_witness:
  "snd (main (example_os unix_env 1234 [(128, 0, SIGTERM), (128, 0, SIGCHLD)]
                [(- 1, 4, 0), (1234, 0, wait_status (Exited 7))])) = Exit 7
   \<and> snd (main (example_os unix_env 1234 [(128, 0, SIGTERM), (128, 0, SIGCHLD)]
                [(- 1, 4, 0), (1234, 0, wait_status (Killed 9 False))])) = Exit 0"
proof -
  have s: "supervising (example_os unix_env 1234 rs ws) ''/tmp/test.sock'' 1234" for rs ws
    by (simp add: supervising_def example_os_def unix_env_def UNIX_BIND_VAR_def deref_def
        c_string_def NUL_def)
  have r: "read_r (example_os unix_env 1234 [(128, 0, SIGTERM), (128, 0, SIGCHLD)] ws)
             = [(128, 0, SIGTERM)] @ (sizeof_signalfd_siginfo, 0, SIGCHLD) # []" for ws
    by (simp add: example_os_def sizeof_signalfd_siginfo_def)
  have p: "\<forall>r\<in>set [(128, 0, SIGTERM)]. fst r = sizeof_signalfd_siginfo \<and> snd (snd r) \<noteq> SIGCHLD"
    by (simp add: sizeof_signalfd_siginfo_def)
  have w: "waitpid_r (example_os unix_env 1234 rs [(- 1, 4, 0), (1234, 0, stat)])
             = [(- 1, 4, 0)] @ (1234, 0, stat) # []" for rs stat
    by (simp add: example_os_def)
  have i: "\<forall>w\<in>set [(- 1, 4, 0 :: int)]. fst w < (0::int) \<and> fst (snd w) = EINTR"
    by (simp add: EINTR_def)
  have a: "snd (main (example_os unix_env 1234 [(128, 0, SIGTERM), (128, 0, SIGCHLD)]
                [(- 1, 4, 0), (1234, 0, wait_status (Exited 7))])) = Exit 7"
  proof -
    have "0 \<le> (7::int) \<and> (7::int) \<le> 255
            \<and> wait_status (Exited 7) = wait_status (Exited 7)"
      by simp
    with C1_supervisor_exit_status
      [OF s r p w [of _ "wait_status (Exited 7)"] i, where c = 7]
    show ?thesis by blast
  qed
  have b: "snd (main (example_os unix_env 1234 [(128, 0, SIGTERM), (128, 0, SIGCHLD)]
                [(- 1, 4, 0), (1234, 0, wait_status (Killed 9 False))])) = Exit 0"
  proof -
    have "1 \<le> (9::int) \<and> (9::int) \<le> 127
            \<and> wait_status (Killed 9 False) = wait_status (Killed 9 False)"
      by simp
    with C1_supervisor_exit_status
      [OF s r p w [of _ "wait_status (Killed 9 False)"] i,
       where s = 9 and core = False]
    show ?thesis by blast
  qed
  show ?thesis using a b by blast
qed

text \<open>
  A child killed by signal 9 and a child that exits with 0 give the supervisor the same
  exit status 0: the status for a killed child is not a distinguished one.
\<close>

theorem C1_killed_child_counterexample:
  "snd (main (example_os unix_env 1234 [(128, 0, SIGCHLD)]
                [(1234, 0, wait_status (Killed 9 False))])) = Exit 0
   \<and> snd (main (example_os unix_env 1234 [(128, 0, SIGCHLD)]
                [(1234, 0, wait_status (Exited 0))])) = Exit 0"
  by (simp add: eval_defs)

text \<open>
  C2. Along every run of \<open>main\<close>, whatever the operating system answers and whatever
  signals are read: the rendezvous path is removed at most once, the child is reaped at
  most once, and every prefix of the run holds at most as many removals as reaps, so the
  removal never comes before the \<open>waitpid\<close> that returned the child's process id.
\<close>

theorem C2_remove_only_after_reap_at_most_once:
  "removes (fst (main os)) \<le> 1
   \<and> reaps (fst (main os)) \<le> 1
   \<and> (\<forall>n. removes (take n (fst (main os))) \<le> reaps (take n (fst (main os))))"
  using main_in_order [of os] by (simp add: in_order_def)

text \<open>Two terminate signals before the child is reaped: one reap, then one removal.\<close>

theorem C2_remove_only_after_reap_at_most_once_witness:
  "removes (fst (main (example_os unix_env 1234
        [(128, 0, SIGTERM), (128, 0, SIGTERM), (128, 0, SIGCHLD)]
        [(- 1, 4, 0), (1234, 0, wait_status (Exited 7))]))) \<le> 1
   \<and> fst (main (example_os unix_env 1234
        [(128, 0, SIGTERM), (128, 0, SIGTERM), (128, 0, SIGCHLD)]
        [(- 1, 4, 0), (1234, 0, wait_status (Exited 7))]))
      = [Socket PF_UNIX, Bind_un 3 ''/tmp/test.sock'', Listen 3, Dup2 3 0, Close 3,
         Sigprocmask, Signalfd, Fork, Close 0,
         Read_signalfd, Kill 1234 SIGTERM, Read_signalfd, Kill 1234 SIGTERM,
         Read_signalfd, Waitpid 1234 (- 1), Waitpid 1234 1234, Remove ''/tmp/test.sock'']"
  using C2_remove_only_after_reap_at_most_once [of "example_os unix_env 1234
        [(128, 0, SIGTERM), (128, 0, SIGTERM), (128, 0, SIGCHLD)]
        [(- 1, 4, 0), (1234, 0, wait_status (Exited 7))]"]
  by (simp add: eval_defs)

text \<open>
  C3, evaluated on the code. The set-up succeeds, the first signal read is the
  child-terminated one, and the non-blocking \<open>waitpid\<close> returns 0 because the child has not
  terminated (it was stopped). The wait is not retried: the run reaches the
  assertion \<open>rc == chid\<close> with \<open>rc = 0\<close> and ends there.
\<close>

theorem C3_spurious_wake_fails_assertion:
  "main (example_os unix_env 1234 [(128, 0, SIGCHLD)] [(0, 0, 0)])
     = ([Socket PF_UNIX, Bind_un 3 ''/tmp/test.sock'', Listen 3, Dup2 3 0, Close 3,
         Sigprocmask, Signalfd, Fork, Close 0, Read_signalfd, Waitpid 1234 0],
        Abort)"
  by (simp add: eval_defs)

section \<open>Properties of the address resolver and the socket preparer\<close>

lemma strrchr_None_iff: "strrchr s c = None \<longleftrightarrow> c \<notin> set s"
  by (induction s) (auto split: option.splits)

lemma strrchr_append_notin: "c \<notin> set ys \<Longrightarrow> strrchr (xs @ ys) c = strrchr xs c"
proof (induction xs)
  case Nil
  then show ?case by (simp add: strrchr_None_iff)
next
  case (Cons x xs)
  then show ?case by simp
qed

lemma strrchr_last: "c \<notin> set ys \<Longrightarrow> strrchr (xs @ c # ys) c = Some (length xs)"
proof (induction xs)
  case Nil
  then have "strrchr ys c = None" by (simp add: strrchr_None_iff)
  then show ?case by simp
next
  case (Cons x xs)
  then show ?case by simp
qed

lemma strrchr_Some_less: "strrchr s c = Some i \<Longrightarrow> i < length s"
  by (induction s arbitrary: i) (auto split: option.splits if_splits)

lemma c_str_at_cut:
  assumes "c_string s" "i < length s"
  shows "c_str_at ((s @ replicate k NUL)[i := NUL]) 0 = take i s"
    and "c_str_at ((s @ replicate k NUL)[i := NUL]) (Suc i) = drop (Suc i) s"
proof -
  have s: "s = take i s @ s ! i # drop (Suc i) s"
    using assms(2) by (simp add: id_take_nth_drop)
  have u: "(s @ replicate k NUL)[i := NUL] = take i s @ NUL # drop (Suc i) s @ replicate k NUL"
    using assms(2) by (simp add: list_update_append upd_conv_take_nth_drop)
  have ct: "c_string (take i s)" and cd: "c_string (drop (Suc i) s)"
    using assms(1) by (auto simp: c_string_def dest: in_set_takeD in_set_dropD)
  show "c_str_at ((s @ replicate k NUL)[i := NUL]) 0 = take i s"
    unfolding u using takeWhile_c_string(1) [OF ct] by (simp add: c_str_at_def)
  have "drop (Suc i) (take i s @ NUL # drop (Suc i) s @ replicate k NUL)
          = drop (Suc i) s @ replicate k NUL"
    using assms(2) by simp
  then show "c_str_at ((s @ replicate k NUL)[i := NUL]) (Suc i) = drop (Suc i) s"
    unfolding u using c_str_at_padded [OF cd, of k] by (simp add: c_str_at_def)
qed

lemma split_endpoint_colon:
  assumes "c_string host" "c_string service" "CHR '':'' \<notin> set service"
    "CHR '']'' \<notin> set service" "length (host @ CHR '':'' # service) < 256"
  shows "split_endpoint (host @ CHR '':'' # service) = Inr (Some host, service)"
proof -
  let ?s = "host @ CHR '':'' # service"
  have cs: "c_string ?s" using assms(1,2) by (auto simp: c_string_def NUL_def)
  have t: "trunc_strncpy ?s 256 = (?s @ replicate (256 - length ?s) NUL, False)"
    using assms(5) by (rule trunc_strncpy_short)
  have b: "c_str_at (?s @ replicate (256 - length ?s) NUL) 0 = ?s"
    using cs by (rule c_str_at_padded)
  have col: "strrchr ?s CHR '':'' = Some (length host)"
    using assms(3) by (rule strrchr_last)
  have "strrchr ?s CHR '']'' = strrchr host CHR '']''"
    using assms(4) by (simp add: strrchr_append_notin)
  then have brac: "strrchr ?s CHR '']'' = None \<or> (\<exists>j. strrchr ?s CHR '']'' = Some j \<and> j < length host)"
    using strrchr_Some_less [of host "CHR '']''"] by (cases "strrchr host CHR '']''") auto
  have i: "length host < length ?s" by simp
  have n: "c_str_at ((?s @ replicate (256 - length ?s) NUL)[length host := NUL]) 0 = host"
    using c_str_at_cut(1) [OF cs i] by simp
  have v: "c_str_at ((?s @ replicate (256 - length ?s) NUL)[length host := NUL]) (Suc (length host)) = service"
    using c_str_at_cut(2) [OF cs i] by simp
  have cond: "(strrchr ?s CHR '':'' = None
                \<or> (strrchr ?s CHR '']'' \<noteq> None
                    \<and> the (strrchr ?s CHR '']'') > the (strrchr ?s CHR '':''))) = False"
    using brac col by auto
  show ?thesis
    by (simp only: split_endpoint_def t b Let_def prod.case if_False cond)
       (simp only: col option.sel n v)
qed






lemma main_path_too_long:
  assumes "getenv (environ os) UNIX_BIND_VAR = Some path" "c_string path"
    "0 < sun_path_size os" "sun_path_size os \<le> length path"
  shows "main os =
     (if fst (socket_un_r os) < 0
      then ([Socket PF_UNIX, Stderr (Msg_PF_UNIX_socket (snd (socket_un_r os)))],
            Exit EXIT_FAILURE)
      else ([Socket PF_UNIX, Stderr (Msg_path_too_long path)], Exit EXIT_FAILURE))"
proof -
  have t: "trunc_strncpy path (sun_path_size os) = (take (sun_path_size os) path, True)"
    using assms(2-4) by (rule trunc_strncpy_long)
  have b: "bind_unix os path =
     (if fst (socket_un_r os) < 0
      then ([Socket PF_UNIX, Stderr (Msg_PF_UNIX_socket (snd (socket_un_r os)))],
            Inl (Exit EXIT_FAILURE))
      else ([Socket PF_UNIX, Stderr (Msg_path_too_long path)], Inl (Exit EXIT_FAILURE)))"
    by (simp add: bind_unix_def t split: prod.splits)
  show ?thesis
    by (simp add: main_def Let_def assms(1) b and_then_def and_finally_def)
qed

lemma getenv_long_path:
  "getenv [''PATH=/bin'', ''FASTCGI4J_UNIX_BIND='' @ long_path] UNIX_BIND_VAR = Some long_path"
  by (simp add: UNIX_BIND_VAR_def deref_def)

lemma long_path_facts: "c_string long_path" "length long_path = 109"
  by (auto simp: long_path_def c_string_def NUL_def)

text \<open>
  C6, as the code has it. In filesystem-path mode the socket is created first. When the
  path has at least as many bytes as \<open>sun_path\<close> the run then ends with the
  path-too-long message and a failure status, before any bind; when the socket could not
  be created the run ends with the socket message instead.
\<close>

theorem C6_path_too_long:
  assumes "getenv (environ os) UNIX_BIND_VAR = Some path" "c_string path"
    "0 < sun_path_size os" "sun_path_size os \<le> length path"
  shows "main os =
     (if fst (socket_un_r os) < 0
      then ([Socket PF_UNIX, Stderr (Msg_PF_UNIX_socket (snd (socket_un_r os)))],
            Exit EXIT_FAILURE)
      else ([Socket PF_UNIX, Stderr (Msg_path_too_long path)], Exit EXIT_FAILURE))"
  using assms by (rule main_path_too_long)

text \<open>A path of 109 bytes with a \<open>sun_path\<close> of 108 bytes.\<close>

theorem C6_path_too_long_witness:
  "main (example_os [''PATH=/bin'', ''FASTCGI4J_UNIX_BIND='' @ long_path] 1234 [] [])
     = ([Socket PF_UNIX, Stderr (Msg_path_too_long long_path)], Exit EXIT_FAILURE)"
  using C6_path_too_long
    [of "example_os [''PATH=/bin'', ''FASTCGI4J_UNIX_BIND='' @ long_path] 1234 [] []" long_path]
    getenv_long_path long_path_facts
  by (simp add: example_os_def)

text \<open>
  For that path the socket has been created when the path is found too long.
\<close>

theorem C6_socket_before_check_counterexample:
  "fst (main (example_os [''PATH=/bin'', ''FASTCGI4J_UNIX_BIND='' @ long_path] 1234 [] []))
     = [Socket PF_UNIX, Stderr (Msg_path_too_long long_path)]"
  using main_path_too_long
    [of "example_os [''PATH=/bin'', ''FASTCGI4J_UNIX_BIND='' @ long_path] 1234 [] []" long_path]
    getenv_long_path long_path_facts
  by (simp add: example_os_def)


lemma inet_os_facts:
  "getenv (environ (inet_os addr res)) UNIX_BIND_VAR = None"
  "getenv (environ (inet_os addr res)) INET_BIND_VAR = Some addr"
  "getaddrinfo_r (inet_os addr res) node service = (0, res)"
  by (simp_all add: inet_os_def example_os_def UNIX_BIND_VAR_def INET_BIND_VAR_def deref_def)






lemma try_one_fails:
  "fails c \<Longrightarrow> try_one c st =
     (attempt c,
      \<lparr>v_sock = (if fst (socket_r c) < 0 then fst (socket_r c) else - 1),
       v_mom = (if fst (socket_r c) < 0 then 1 else 2),
       v_fam = ai_family c,
       v_errno = (if fst (socket_r c) < 0 then snd (socket_r c) else snd (bind_r c))\<rparr>,
      True)"
  by (cases st) (auto simp: fails_def try_one_def attempt_def Let_def split: prod.splits)

lemma try_one_succeeds:
  "\<not> fails c \<Longrightarrow> try_one c st =
     (attempt c, st\<lparr>v_fam := ai_family c, v_sock := fst (socket_r c)\<rparr>, False)"
  by (cases st) (auto simp: fails_def try_one_def attempt_def Let_def split: prod.splits)

lemma try_candidates_failing_prefix:
  "\<forall>c\<in>set pre. fails c \<Longrightarrow>
     \<exists>st'. try_candidates (pre @ rest) st = after (concat (map attempt pre)) (try_candidates rest st')"
proof (induction pre arbitrary: st)
  case Nil
  show ?case by (rule exI [of _ st]) (simp add: after_def)
next
  case (Cons c pre)
  from Cons.prems have f: "fails c" and r: "\<forall>c\<in>set pre. fails c" by simp_all
  obtain st1 where t: "try_one c st = (attempt c, st1, True)"
    using try_one_fails [OF f] by blast
  obtain st' where
    "try_candidates (pre @ rest) st1 = after (concat (map attempt pre)) (try_candidates rest st')"
    using Cons.IH [OF r] by blast
  then have "try_candidates ((c # pre) @ rest) st
               = after (concat (map attempt (c # pre))) (try_candidates rest st')"
    by (simp add: t after_def split: prod.splits)
  then show ?case by blast
qed

lemma inet_socket_first_success:
  assumes "\<forall>c\<in>set pre. fails c" "\<not> fails c"
  shows "inet_socket (pre @ c # post) e a
           = (concat (map attempt (pre @ [c])), Inr (fst (socket_r c)))"
proof -
  obtain st' where t: "try_candidates (pre @ c # post)
        \<lparr>v_sock = - 1, v_mom = 0, v_fam = AF_UNSPEC, v_errno = e\<rparr>
      = after (concat (map attempt pre)) (try_candidates (c # post) st')"
    using try_candidates_failing_prefix [OF assms(1)] by blast
  have "0 \<le> fst (socket_r c)" using assms(2) by (simp add: fails_def)
  then show ?thesis
    by (simp add: inet_socket_def t try_one_succeeds [OF assms(2)])
qed

lemma inet_socket_all_fail:
  assumes "\<forall>c\<in>set pre. fails c" "fails c"
  shows "inet_socket (pre @ [c]) e a
           = (concat (map attempt (pre @ [c])) @ [Stderr (report a c)], Inl (Exit EXIT_FAILURE))"
proof -
  obtain st' where t: "try_candidates (pre @ [c])
        \<lparr>v_sock = - 1, v_mom = 0, v_fam = AF_UNSPEC, v_errno = e\<rparr>
      = after (concat (map attempt pre)) (try_candidates [c] st')"
    using try_candidates_failing_prefix [OF assms(1)] by blast
  show ?thesis
    by (simp add: inet_socket_def t try_one_fails [OF assms(2)] report_def Let_def)
qed


lemma main_inet:
  assumes "getenv (environ os) UNIX_BIND_VAR = None"
    "getenv (environ os) INET_BIND_VAR = Some addr"
    "split_endpoint addr = Inr (node, service)"
    "getaddrinfo_r os node service = (0, res)" "res \<noteq> []"
  shows "main os =
     after [Getaddrinfo node service]
       (and_finally (and_then (inet_socket res (errno_start os) addr) (listen_install os))
          (\<lambda>_. launch os))"
proof -
  have b: "bind_inet os addr
             = after [Getaddrinfo node service] (inet_socket res (errno_start os) addr)"
    using assms(3-5) by (simp add: bind_inet_def)
  obtain l r where i: "inet_socket res (errno_start os) addr = (l, r)"
    by (cases "inet_socket res (errno_start os) addr")
  show ?thesis
    by (simp add: main_def Let_def assms(1,2) b i and_then_def and_finally_def after_def
        split: sum.splits prod.splits)
qed

lemma main_inet_first_success:
  assumes "getenv (environ os) UNIX_BIND_VAR = None"
    "getenv (environ os) INET_BIND_VAR = Some addr"
    "split_endpoint addr = Inr (node, service)"
    "\<forall>c\<in>set pre. fails c" "\<not> fails c"
    "getaddrinfo_r os node service = (0, pre @ c # post)"
  shows "main os =
     after (Getaddrinfo node service # concat (map attempt (pre @ [c])))
       (and_finally (listen_install os (fst (socket_r c))) (\<lambda>_. launch os))"
proof -
  have m: "main os =
     after [Getaddrinfo node service]
       (and_finally (and_then (inet_socket (pre @ c # post) (errno_start os) addr) (listen_install os))
          (\<lambda>_. launch os))"
    using assms(1-3,6) by (rule main_inet) simp
  show ?thesis
    unfolding m inet_socket_first_success [OF assms(4,5)]
    by (simp add: and_then_def and_finally_def after_def split: sum.splits prod.splits)
qed

lemma main_inet_all_fail:
  assumes "getenv (environ os) UNIX_BIND_VAR = None"
    "getenv (environ os) INET_BIND_VAR = Some addr"
    "split_endpoint addr = Inr (node, service)"
    "\<forall>c\<in>set pre. fails c" "fails c"
    "getaddrinfo_r os node service = (0, pre @ [c])"
  shows "main os =
     (Getaddrinfo node service # concat (map attempt (pre @ [c])) @ [Stderr (report addr c)],
      Exit EXIT_FAILURE)"
proof -
  have m: "main os =
     after [Getaddrinfo node service]
       (and_finally (and_then (inet_socket (pre @ [c]) (errno_start os) addr) (listen_install os))
          (\<lambda>_. launch os))"
    using assms(1-3,6) by (rule main_inet) simp
  show ?thesis
    unfolding m inet_socket_all_fail [OF assms(4,5)]
    by (simp add: and_then_def and_finally_def)
qed

lemma split_localhost: "split_endpoint ''localhost:8080'' = Inr (Some ''localhost'', ''8080'')"
  using split_endpoint_colon [of "''localhost''" "''8080''"] by (simp add: c_string_def NUL_def)

lemma example_fails:
  "fails cand_bind_fails" "fails cand_bind_fails6" "fails cand_socket_fails" "\<not> fails cand_ok"
  by (simp_all add: fails_def cand_bind_fails_def cand_bind_fails6_def cand_socket_fails_def
      cand_ok_def)

lemmas inet_eval_defs = inet_os_def example_os_def attempt_def cand_bind_fails_def
  cand_bind_fails6_def cand_socket_fails_def cand_ok_def listen_install_def launch_def
  and_finally_def Let_def UNIX_BIND_VAR_def INET_BIND_VAR_def deref_def NUL_def

text \<open>
  C8, as the code has it. In network mode, after the endpoint has been split and resolved,
  \<open>main\<close> tries the candidates in order, socket creation then bind. When the candidates
  before \<open>c\<close> all fail and \<open>c\<close> succeeds, the calls made are those for these candidates
  and none for the candidates after \<open>c\<close>, and the run goes on to listen on the socket
  created for \<open>c\<close>. When every candidate fails, the run ends with a failure status and a
  message decided by the last candidate: when its socket creation failed, a socket message
  with the error code of that call and the label \<open>PF_INET\<close> for that family and
  \<open>PF_INET6\<close> for any other; when its bind failed, a bind message with the error code of
  the bind, whatever the \<open>close\<close> that followed left in \<open>errno\<close>, and with the
  configuration string; the bind message names no address family.
\<close>

theorem C8_candidates_in_main:
  assumes "getenv (environ os) UNIX_BIND_VAR = None"
    and "getenv (environ os) INET_BIND_VAR = Some addr"
    and "split_endpoint addr = Inr (node, service)"
    and "\<forall>c\<in>set pre. fails c"
  shows "(\<not> fails c \<and> getaddrinfo_r os node service = (0, pre @ c # post) \<longrightarrow>
            main os =
              after (Getaddrinfo node service # concat (map attempt (pre @ [c])))
                (and_finally (listen_install os (fst (socket_r c))) (\<lambda>_. launch os)))
     \<and> (fails c \<and> getaddrinfo_r os node service = (0, pre @ [c]) \<longrightarrow>
            main os =
              (Getaddrinfo node service # concat (map attempt (pre @ [c]))
                 @ [Stderr (if fst (socket_r c) < 0
                            then Msg_inet_socket
                                   (if ai_family c = PF_INET then ''PF_INET'' else ''PF_INET6'')
                                   (snd (socket_r c))
                            else Msg_bind_in (snd (bind_r c)) addr)],
               Exit EXIT_FAILURE))"
  using main_inet_first_success [OF assms, of c post] main_inet_all_fail [OF assms, of c]
  by (simp add: report_def)

text \<open>
  Success at the third of four candidates; a last candidate whose bind fails with 98 (the
  \<open>close\<close> after it fails with 9); a last candidate whose socket creation fails.
\<close>

theorem C8_candidates_in_main_witness:
  "main (inet_os ''localhost:8080'' [cand_bind_fails, cand_socket_fails, cand_ok, cand_socket_fails])
     = ([Getaddrinfo (Some ''localhost'') ''8080'',
         Socket PF_INET, Bind_in 5, Close 5, Socket PF_INET6, Socket PF_INET, Bind_in 5,
         Listen 5, Dup2 5 0, Close 5,
         Execve [''/usr/bin/worker'', ''-x''] [''PATH=/bin'']],
        Exec [''/usr/bin/worker'', ''-x''] [''PATH=/bin''])
   \<and> main (inet_os ''localhost:8080'' [cand_socket_fails, cand_bind_fails])
     = ([Getaddrinfo (Some ''localhost'') ''8080'',
         Socket PF_INET6, Socket PF_INET, Bind_in 5, Close 5,
         Stderr (Msg_bind_in 98 ''localhost:8080'')], Exit EXIT_FAILURE)
   \<and> main (inet_os ''localhost:8080'' [cand_bind_fails, cand_socket_fails])
     = ([Getaddrinfo (Some ''localhost'') ''8080'',
         Socket PF_INET, Bind_in 5, Close 5, Socket PF_INET6,
         Stderr (Msg_inet_socket ''PF_INET6'' 97)], Exit EXIT_FAILURE)"
proof -
  have 1: "\<forall>c\<in>set [cand_bind_fails, cand_socket_fails]. fails c"
    and 2: "\<forall>c\<in>set [cand_socket_fails]. fails c"
    and 3: "\<forall>c\<in>set [cand_bind_fails]. fails c"
    using example_fails by simp_all
  have a: "main (inet_os ''localhost:8080'' [cand_bind_fails, cand_socket_fails, cand_ok, cand_socket_fails])
     = after (Getaddrinfo (Some ''localhost'') ''8080''
               # concat (map attempt ([cand_bind_fails, cand_socket_fails] @ [cand_ok])))
         (and_finally
            (listen_install (inet_os ''localhost:8080'' [cand_bind_fails, cand_socket_fails, cand_ok, cand_socket_fails])
               (fst (socket_r cand_ok)))
            (\<lambda>_. launch (inet_os ''localhost:8080'' [cand_bind_fails, cand_socket_fails, cand_ok, cand_socket_fails])))"
    using C8_candidates_in_main
      [OF inet_os_facts(1) inet_os_facts(2) split_localhost 1,
       of cand_ok "[cand_bind_fails, cand_socket_fails, cand_ok, cand_socket_fails]"
          "[cand_socket_fails]"]
      example_fails(4) inet_os_facts(3)
    by simp
  have b: "main (inet_os ''localhost:8080'' [cand_socket_fails, cand_bind_fails])
     = (Getaddrinfo (Some ''localhost'') ''8080''
          # concat (map attempt ([cand_socket_fails] @ [cand_bind_fails]))
          @ [Stderr (Msg_bind_in 98 ''localhost:8080'')], Exit EXIT_FAILURE)"
    using C8_candidates_in_main
      [OF inet_os_facts(1) inet_os_facts(2) split_localhost 2,
       of cand_bind_fails "[cand_socket_fails, cand_bind_fails]"]
      example_fails(1) inet_os_facts(3)
    by (simp add: cand_bind_fails_def)
  have c: "main (inet_os ''localhost:8080'' [cand_bind_fails, cand_socket_fails])
     = (Getaddrinfo (Some ''localhost'') ''8080''
          # concat (map attempt ([cand_bind_fails] @ [cand_socket_fails]))
          @ [Stderr (Msg_inet_socket ''PF_INET6'' 97)], Exit EXIT_FAILURE)"
    using C8_candidates_in_main
      [OF inet_os_facts(1) inet_os_facts(2) split_localhost 3,
       of cand_socket_fails "[cand_bind_fails, cand_socket_fails]"]
      example_fails(3) inet_os_facts(3)
    by (simp add: cand_socket_fails_def)
  show ?thesis
    unfolding a b c by (simp add: inet_eval_defs)
qed

text \<open>
  Two runs in which the only candidate fails in bind with the same error, one of family
  \<open>PF_INET\<close> and one of family \<open>PF_INET6\<close>: the message is the same, it does not use the
  address family of the candidate.
\<close>

theorem C8_bind_report_without_family_counterexample:
  "main (inet_os ''localhost:8080'' [cand_bind_fails])
     = ([Getaddrinfo (Some ''localhost'') ''8080'', Socket PF_INET, Bind_in 5, Close 5,
         Stderr (Msg_bind_in 98 ''localhost:8080'')], Exit EXIT_FAILURE)
   \<and> main (inet_os ''localhost:8080'' [cand_bind_fails6])
     = ([Getaddrinfo (Some ''localhost'') ''8080'', Socket PF_INET6, Bind_in 5, Close 5,
         Stderr (Msg_bind_in 98 ''localhost:8080'')], Exit EXIT_FAILURE)"
proof -
  have e: "\<forall>c\<in>set ([] :: candidate list). fails c" by simp
  have a: "main (inet_os ''localhost:8080'' [cand_bind_fails])
     = (Getaddrinfo (Some ''localhost'') ''8080'' # concat (map attempt ([] @ [cand_bind_fails]))
          @ [Stderr (report ''localhost:8080'' cand_bind_fails)], Exit EXIT_FAILURE)"
    using inet_os_facts(1) inet_os_facts(2) split_localhost e example_fails(1)
    by (rule main_inet_all_fail) (simp add: inet_os_facts(3))
  have b: "main (inet_os ''localhost:8080'' [cand_bind_fails6])
     = (Getaddrinfo (Some ''localhost'') ''8080'' # concat (map attempt ([] @ [cand_bind_fails6]))
          @ [Stderr (report ''localhost:8080'' cand_bind_fails6)], Exit EXIT_FAILURE)"
    using inet_os_facts(1) inet_os_facts(2) split_localhost e example_fails(2)
    by (rule main_inet_all_fail) (simp add: inet_os_facts(3))
  show ?thesis
    unfolding a b
    by (simp add: report_def attempt_def cand_bind_fails_def cand_bind_fails6_def)
qed


section \<open>Properties of the choice of the bind target\<close>

lemma copy_environ_unsetenv:
  "copy_environ (unsetenv env INET_BIND_VAR) = copy_environ env"
proof (induction env)
  case Nil
  show ?case by (simp add: unsetenv_def)
next
  case (Cons e es)
  then show ?case using match_var_INET [of e] by (auto simp: unsetenv_def)
qed

lemma INET_not_UNIX:
  assumes "take (length INET_BIND_VAR) e = INET_BIND_VAR"
  shows "take (length UNIX_BIND_VAR) e \<noteq> UNIX_BIND_VAR"
  using assms by (simp add: INET_BIND_VAR_def UNIX_BIND_VAR_def)

lemma INET_not_PEER:
  assumes "take (length INET_BIND_VAR) e = INET_BIND_VAR"
  shows "take (length UNIX_PEER_VAR) e \<noteq> UNIX_PEER_VAR"
proof
  assume p: "take (length UNIX_PEER_VAR) e = UNIX_PEER_VAR"
  have "take (length INET_BIND_VAR) (take (length UNIX_PEER_VAR) e) = take (length INET_BIND_VAR) e"
    by (simp add: INET_BIND_VAR_def UNIX_PEER_VAR_def)
  then have "take (length INET_BIND_VAR) UNIX_PEER_VAR = INET_BIND_VAR"
    using p assms by simp
  then show False by (simp add: INET_BIND_VAR_def UNIX_PEER_VAR_def)
qed

lemma getenv_unsetenv_UNIX:
  "getenv (unsetenv env INET_BIND_VAR) UNIX_BIND_VAR = getenv env UNIX_BIND_VAR"
proof (induction env)
  case Nil
  show ?case by (simp add: unsetenv_def)
next
  case (Cons e es)
  then show ?case using INET_not_UNIX [of e] by (auto simp: unsetenv_def)
qed

lemma getenv_unsetenv_PEER:
  "getenv (unsetenv env INET_BIND_VAR) UNIX_PEER_VAR = getenv env UNIX_PEER_VAR"
proof (induction env)
  case Nil
  show ?case by (simp add: unsetenv_def)
next
  case (Cons e es)
  then show ?case using INET_not_PEER [of e] by (auto simp: unsetenv_def)
qed

lemma main_ignores_INET:
  assumes "getenv (environ os) UNIX_BIND_VAR = Some path"
  shows "main os = main (os\<lparr>environ := unsetenv (environ os) INET_BIND_VAR\<rparr>)"
proof -
  let ?os = "os\<lparr>environ := unsetenv (environ os) INET_BIND_VAR\<rparr>"
  have g: "getenv (environ ?os) UNIX_BIND_VAR = Some path"
    using assms by (simp add: getenv_unsetenv_UNIX)
  have b: "bind_unix ?os path = bind_unix os path"
    by (simp add: bind_unix_def getenv_unsetenv_PEER cong: if_cong split: prod.splits)
  have l: "listen_install ?os = listen_install os"
    by (rule ext) (simp add: listen_install_def cong: if_cong split: prod.splits)
  have s: "supervise ?os path = supervise os path"
    by (rule ext) (simp add: supervise_def cong: if_cong split: prod.splits)
  have x: "launch ?os = launch os"
    by (simp add: launch_def copy_environ_unsetenv cong: option.case_cong)
  show ?thesis
    by (simp only: main_def Let_def assms g option.case b l s x)
qed

lemma fst_and_then_hd:
  "fst m \<noteq> [] \<Longrightarrow> hd (fst (and_then m f)) = hd (fst m)"
  by (auto simp: and_then_def split: prod.splits sum.splits)

lemma fst_and_finally_hd:
  "fst m \<noteq> [] \<Longrightarrow> hd (fst (and_finally m f)) = hd (fst m)"
  by (auto simp: and_finally_def split: prod.splits sum.splits)

lemma fst_and_then_Nil: "fst m \<noteq> [] \<Longrightarrow> fst (and_then m f) \<noteq> []"
  by (auto simp: and_then_def split: prod.splits sum.splits)

lemma bind_unix_hd: "fst (bind_unix os path) \<noteq> [] \<and> hd (fst (bind_unix os path)) = Socket PF_UNIX"
  by (simp add: bind_unix_def split: prod.splits)

lemma bind_inet_hd:
  "fst (bind_inet os addr) \<noteq> [] \<and> hd (fst (bind_inet os addr)) =
     (case split_endpoint addr of
        Inl d \<Rightarrow> Stderr d
      | Inr (node, service) \<Rightarrow> Getaddrinfo node service)"
  by (simp add: bind_inet_def split: sum.splits prod.splits)

lemma main_unix_hd:
  assumes "getenv (environ os) UNIX_BIND_VAR = Some path"
  shows "hd (fst (main os)) = Socket PF_UNIX"
  using bind_unix_hd [of os path]
  by (simp add: main_def Let_def assms fst_and_finally_hd fst_and_then_hd fst_and_then_Nil)

lemma main_inet_hd:
  assumes "getenv (environ os) UNIX_BIND_VAR = None" "getenv (environ os) INET_BIND_VAR = Some addr"
  shows "hd (fst (main os)) =
     (case split_endpoint addr of
        Inl d \<Rightarrow> Stderr d
      | Inr (node, service) \<Rightarrow> Getaddrinfo node service)"
  using bind_inet_hd [of os addr]
  by (simp add: main_def Let_def assms fst_and_finally_hd fst_and_then_hd fst_and_then_Nil)

lemma main_neither:
  assumes "getenv (environ os) UNIX_BIND_VAR = None" "getenv (environ os) INET_BIND_VAR = None"
  shows "main os = ([Stderr Msg_must_specify], Exit EXIT_FAILURE)"
  by (simp add: main_def Let_def assms and_then_def and_finally_def)

text \<open>
  C5, as the code has it. When neither variable is set, \<open>main\<close> writes the must-specify
  message and returns the failure status without any system call. When
  \<open>FASTCGI4J_UNIX_BIND\<close> is set, the run is in filesystem-path mode, starting with the
  creation of the \<open>PF_UNIX\<close> socket, and it is the run \<open>main\<close> makes when
  \<open>FASTCGI4J_INET_BIND\<close> is not set at all: a second variable is ignored, not reported.
  When only \<open>FASTCGI4J_INET_BIND\<close> is set, the run is in network mode: it starts with the
  message for an endpoint that cannot be split, or with the name resolution of the split
  endpoint.
\<close>

theorem C5_bind_target_selection:
  "(getenv (environ os) UNIX_BIND_VAR = None \<and> getenv (environ os) INET_BIND_VAR = None \<longrightarrow>
      main os = ([Stderr Msg_must_specify], Exit EXIT_FAILURE))
   \<and> (getenv (environ os) UNIX_BIND_VAR = Some path \<longrightarrow>
      hd (fst (main os)) = Socket PF_UNIX
      \<and> main os = main (os\<lparr>environ := unsetenv (environ os) INET_BIND_VAR\<rparr>))
   \<and> (getenv (environ os) UNIX_BIND_VAR = None \<and> getenv (environ os) INET_BIND_VAR = Some addr \<longrightarrow>
      hd (fst (main os)) =
        (case split_endpoint addr of
           Inl d \<Rightarrow> Stderr d
         | Inr (node, service) \<Rightarrow> Getaddrinfo node service))"
  using main_neither [of os] main_unix_hd [of os path] main_ignores_INET [of os path]
    main_inet_hd [of os addr]
  by blast

text \<open>
  No variable set; both variables set; only \<open>FASTCGI4J_INET_BIND\<close> set.
\<close>

theorem C5_bind_target_selection_witness:
  "main (example_os [''PATH=/bin''] 0 [] []) = ([Stderr Msg_must_specify], Exit EXIT_FAILURE)
   \<and> hd (fst (main (example_os both_env 0 [] []))) = Socket PF_UNIX
   \<and> main (example_os both_env 0 [] []) = main (example_os unix_env 0 [] [])
   \<and> hd (fst (main (example_os [''PATH=/bin'', ''FASTCGI4J_INET_BIND=localhost:8080''] 0 [] [])))
       = Getaddrinfo (Some ''localhost'') ''8080''"
proof -
  have 1: "getenv (environ (example_os [''PATH=/bin''] 0 [] [])) UNIX_BIND_VAR = None
         \<and> getenv (environ (example_os [''PATH=/bin''] 0 [] [])) INET_BIND_VAR = None"
    by (simp add: example_os_def UNIX_BIND_VAR_def INET_BIND_VAR_def deref_def)
  have 2: "getenv (environ (example_os both_env 0 [] [])) UNIX_BIND_VAR = Some ''/tmp/test.sock''"
    by (simp add: example_os_def both_env_def UNIX_BIND_VAR_def deref_def)
  have 3: "(example_os both_env 0 [] [])
             \<lparr>environ := unsetenv (environ (example_os both_env 0 [] [])) INET_BIND_VAR\<rparr>
           = example_os unix_env 0 [] []"
    by (simp add: example_os_def both_env_def unix_env_def unsetenv_def INET_BIND_VAR_def deref_def)
  have 4: "getenv (environ (example_os [''PATH=/bin'', ''FASTCGI4J_INET_BIND=localhost:8080''] 0 [] []))
             UNIX_BIND_VAR = None
         \<and> getenv (environ (example_os [''PATH=/bin'', ''FASTCGI4J_INET_BIND=localhost:8080''] 0 [] []))
             INET_BIND_VAR = Some ''localhost:8080''"
    by (simp add: example_os_def UNIX_BIND_VAR_def INET_BIND_VAR_def deref_def)
  have 5: "split_endpoint ''localhost:8080'' = Inr (Some ''localhost'', ''8080'')"
    using split_endpoint_colon [of "''localhost''" "''8080''"] by (simp add: c_string_def NUL_def)
  have a: "main (example_os [''PATH=/bin''] 0 [] []) = ([Stderr Msg_must_specify], Exit EXIT_FAILURE)"
    using C5_bind_target_selection [of "example_os [''PATH=/bin''] 0 [] []"] 1 by blast
  have "hd (fst (main (example_os both_env 0 [] []))) = Socket PF_UNIX
      \<and> main (example_os both_env 0 [] [])
          = main ((example_os both_env 0 [] [])
                    \<lparr>environ := unsetenv (environ (example_os both_env 0 [] [])) INET_BIND_VAR\<rparr>)"
    using C5_bind_target_selection [of "example_os both_env 0 [] []" "''/tmp/test.sock''"] 2
    by blast
  then have b: "hd (fst (main (example_os both_env 0 [] []))) = Socket PF_UNIX
      \<and> main (example_os both_env 0 [] []) = main (example_os unix_env 0 [] [])"
    unfolding 3 .
  have "hd (fst (main (example_os [''PATH=/bin'', ''FASTCGI4J_INET_BIND=localhost:8080''] 0 [] [])))
      = (case split_endpoint ''localhost:8080'' of
           Inl d \<Rightarrow> Stderr d
         | Inr (node, service) \<Rightarrow> Getaddrinfo node service)"
    using C5_bind_target_selection
        [of "example_os [''PATH=/bin'', ''FASTCGI4J_INET_BIND=localhost:8080''] 0 [] []" _
            "''localhost:8080''"] 4
    by blast
  then have c: "hd (fst (main (example_os [''PATH=/bin'', ''FASTCGI4J_INET_BIND=localhost:8080''] 0 [] [])))
      = Getaddrinfo (Some ''localhost'') ''8080''"
    by (simp add: 5)
  show ?thesis using a b c by blast
qed

text \<open>
  With both variables set and every call succeeding, the child's run binds the path, and
  replaces the process image by the worker: nothing is written to the error stream.
\<close>

theorem C5_both_variables_counterexample:
  "main (example_os both_env 0 [] [])
     = ([Socket PF_UNIX, Bind_un 3 ''/tmp/test.sock'', Listen 3, Dup2 3 0, Close 3,
         Sigprocmask, Signalfd, Fork, Execve [''/usr/bin/worker'', ''-x''] [''PATH=/bin'']],
        Exec [''/usr/bin/worker'', ''-x''] [''PATH=/bin''])"
  by (simp add: eval_defs both_env_def Let_def)


section \<open>Properties of the interop bridge\<close>






text \<open>
  C10, evaluated on the code with a signed \<open>char\<close> (x86-64 Linux). A received byte
  \<open>0xFF\<close> is returned as \<open>-1\<close>, the value that also reports the end of the connection,
  and a received byte \<open>0x80\<close> is returned as \<open>-128\<close>; no exception is pending in either
  case. With an unsigned \<open>char\<close> the same bytes give 255 and 128.
\<close>

theorem C10_readSocket_I_signed_char_bytes:
  "readSocket_I True \<lparr>pending = None\<rparr> (1, 0, 0xFF) = (\<lparr>pending = None\<rparr>, - 1)
   \<and> readSocket_I True \<lparr>pending = None\<rparr> (0, 0, 0) = (\<lparr>pending = None\<rparr>, - 1)
   \<and> readSocket_I True \<lparr>pending = None\<rparr> (1, 0, 0x80) = (\<lparr>pending = None\<rparr>, - 128)
   \<and> readSocket_I False \<lparr>pending = None\<rparr> (1, 0, 0xFF) = (\<lparr>pending = None\<rparr>, 255)
   \<and> readSocket_I False \<lparr>pending = None\<rparr> (1, 0, 0x80) = (\<lparr>pending = None\<rparr>, 128)"
  by (simp add: readSocket_I_def char_to_unsigned_def)

end
